theory Spec2Isabelle
  imports Complex_Main "HOL-Library.Word"
begin

section \<open>Wiener deconvolution (deconvolution.py)\<close>

text \<open>
  The program works on NumPy arrays of float32 samples and calls OpenCV for the Gaussian
  blur, the affine warp, the circle rasteriser and the discrete Fourier transform.
  Samples are modelled as real numbers (exact arithmetic, no rounding, no inf/nan) and
  two-dimensional arrays as lists of rows. The OpenCV routines whose code is not part of
  the program are fields of the record \<open>cv\<close>: every definition below takes the
  library as its first argument and nothing is assumed about it beyond what a theorem
  states as a hypothesis.
\<close>

subsection \<open>Arrays\<close>

type_synonym image = "real list list"
type_synonym spectrum = "(real \<times> real) list list"

text \<open>\<open>a.shape[:2]\<close> of a two-dimensional array.\<close>

definition shape2 :: "'a list list \<Rightarrow> nat \<times> nat" where
  "shape2 a = (length a, if a = [] then 0 else length (hd a))"

definition has_shape :: "nat \<Rightarrow> nat \<Rightarrow> 'a list list \<Rightarrow> bool" where
  "has_shape h w a = (length a = h \<and> list_all (\<lambda>r. length r = w) a)"





subsection \<open>The OpenCV routines used by the program\<close>

record cv =
  cv_GaussianBlur :: "image \<Rightarrow> nat \<times> nat \<Rightarrow> real \<Rightarrow> image"
  cv_warpAffine :: "image \<Rightarrow> image \<Rightarrow> nat \<times> nat \<Rightarrow> image option"
  cv_circle :: "8 word list list \<Rightarrow> int \<times> int \<Rightarrow> nat \<Rightarrow> 8 word \<Rightarrow> nat \<Rightarrow> nat \<Rightarrow> 8 word"
  cv_dft :: "image \<Rightarrow> nat \<Rightarrow> spectrum"
  cv_mulSpectrums :: "spectrum \<Rightarrow> spectrum \<Rightarrow> spectrum"
  cv_idft :: "spectrum \<Rightarrow> image"

text \<open>
  \<open>cv_warpAffine\<close> returns \<open>None\<close> where OpenCV raises \<open>cv2.error\<close>.
  \<open>cv_circle kern center radius color y x\<close> is the value of pixel (row \<open>y\<close>, column
  \<open>x\<close>) after the call: \<open>cv.circle\<close> draws in place, so the array keeps its shape and
  its element type \<open>uint8\<close>. \<open>cv_dft img n\<close> is \<open>cv.dft\<close> with
  \<open>DFT_COMPLEX_OUTPUT\<close> and \<open>nonzeroRows = n\<close>; \<open>cv_idft\<close> is \<open>cv.idft\<close> with
  \<open>DFT_SCALE | DFT_REAL_OUTPUT\<close>.
\<close>


subsection \<open>blur\_edge\<close>







subsection \<open>Kernel synthesis\<close>

datatype error = IndexError | ValueError | CvError | InvalidParameter

text \<open>
  \<open>IndexError\<close> and \<open>ValueError\<close> are NumPy's, \<open>CvError\<close> is \<open>cv2.error\<close>.
  \<open>InvalidParameter\<close> is the error kind of the design document; it is part of the
  type so that statements about it can be written down.
\<close>

text \<open>
  \<^verbatim>\<open>
  def motion_kernel(angle, d, sz=65):
      kern = np.ones((1, d), np.float32)
      c, s = np.cos(angle), np.sin(angle)
      A = np.float32([[c, -s, 0], [s, c, 0]])
      sz2 = sz // 2
      A[:,2] = (sz2, sz2) - np.dot(A[:,:2], ((d-1)*0.5, 0))
      kern = cv.warpAffine(kern, A, (sz, sz), flags=cv.INTER_CUBIC)
      return kern
  \<close>
\<close>

definition motion_kernel :: "cv \<Rightarrow> real \<Rightarrow> nat \<Rightarrow> nat option \<Rightarrow> error + image" where
  "motion_kernel L angle d szopt =
     (let sz = (case szopt of None \<Rightarrow> 65 | Some n \<Rightarrow> n);
          kern = [replicate d 1];
          c = cos angle; s = sin angle;
          sz2 = sz div 2;
          t = (real d - 1) * 0.5;
          A = [[c, - s, real sz2 - (c * t + (- s) * 0)],
               [s, c, real sz2 - (s * t + c * 0)]]
      in case cv_warpAffine L kern A (sz, sz) of
           None \<Rightarrow> Inl CvError
         | Some k \<Rightarrow> Inr k)"

text \<open>
  \<^verbatim>\<open>
  def defocus_kernel(d, sz=65):
      kern = np.zeros((sz, sz), np.uint8)
      cv.circle(kern, (sz, sz), d, 255, -1, cv.LINE_AA, shift=1)
      kern = np.float32(kern) / 255.0
      return kern
  \<close>
\<close>

definition defocus_kernel :: "cv \<Rightarrow> nat \<Rightarrow> nat option \<Rightarrow> image" where
  "defocus_kernel L d szopt =
     (let sz = (case szopt of None \<Rightarrow> 65 | Some n \<Rightarrow> n);
          kern = replicate sz (replicate sz (0 :: 8 word));
          drawn = map (\<lambda>y. map (\<lambda>x. cv_circle L kern (int sz, int sz) d 255 y x) [0..<sz])
                      [0..<sz]
      in map (map (\<lambda>v. real (unat v) / 255)) drawn)"

subsection \<open>The steps of update\<close>

text \<open>\<open>np.deg2rad\<close> and \<open>noise = 10**(-0.1*cv.getTrackbarPos('SNR (db)', win))\<close>.\<close>

definition deg2rad :: "real \<Rightarrow> real" where
  "deg2rad x = x * (pi / 180)"

definition noise_of_snr :: "int \<Rightarrow> real" where
  "noise_of_snr v = 10 powr (- 0.1 * real_of_int v)"

text \<open>\<open>psf /= psf.sum()\<close>. Where the sum is zero NumPy yields inf or nan, HOL yields 0.\<close>

definition psf_sum :: "image \<Rightarrow> real" where
  "psf_sum k = sum_list (map sum_list k)"

definition normalize_psf :: "image \<Rightarrow> image" where
  "normalize_psf k = map (map (\<lambda>v. v / psf_sum k)) k"

text \<open>
  NumPy arrays of one and of two dimensions. \<open>cv.selectROI\<close> returns the rectangle
  \<open>(x, y, w, h)\<close> (the program reads \<open>roi_bw[0]\<close> to \<open>roi_bw[3]\<close> as numbers), and
  \<open>np.zeros_like\<close> of a sequence of four numbers is a one-dimensional array of four zeros.
\<close>

datatype ndarray = Arr1 "real list" | Arr2 image

type_synonym roi = "int \<times> int \<times> int \<times> int"

definition asarray_roi :: "roi \<Rightarrow> ndarray" where
  "asarray_roi r =
     (case r of (x, y, w, h) \<Rightarrow>
        Arr1 [real_of_int x, real_of_int y, real_of_int w, real_of_int h])"

definition zeros_like :: "ndarray \<Rightarrow> ndarray" where
  "zeros_like a =
     (case a of
        Arr1 xs \<Rightarrow> Arr1 (replicate (length xs) 0)
      | Arr2 p \<Rightarrow> Arr2 (map (\<lambda>r. replicate (length r) 0) p))"

definition ndarray_shape :: "ndarray \<Rightarrow> nat list" where
  "ndarray_shape a =
     (case a of
        Arr1 xs \<Rightarrow> [length xs]
      | Arr2 p \<Rightarrow> [fst (shape2 p), snd (shape2 p)])"

text \<open>
  \<open>a[:kh, :kw] = v\<close>. Two indices on a one-dimensional array raise IndexError; on a
  two-dimensional array the value must have the shape of the (clipped) target slice,
  otherwise ValueError (broadcasting of axes of length one is not modelled).
\<close>

definition setitem_topleft :: "ndarray \<Rightarrow> nat \<Rightarrow> nat \<Rightarrow> image \<Rightarrow> error + image" where
  "setitem_topleft a kh kw v =
     (case a of
        Arr1 xs \<Rightarrow> Inl IndexError
      | Arr2 p \<Rightarrow>
          (let (H, W) = shape2 p
           in if shape2 v = (min kh H, min kw W)
              then Inr (map (\<lambda>i. map (\<lambda>j. if i < kh \<and> j < kw then v ! i ! j else p ! i ! j)
                                      [0..<W])
                            [0..<H])
              else Inl ValueError))"

text \<open>
  \<^verbatim>\<open>
  psf_pad = np.zeros_like(roi_bw)
  kh, kw = psf.shape
  psf_pad[:kh, :kw] = psf
  \<close>
\<close>

definition pad_kernel :: "roi \<Rightarrow> image \<Rightarrow> error + image" where
  "pad_kernel r psf =
     (let psf_pad = zeros_like (asarray_roi r);
          (kh, kw) = shape2 psf
      in setitem_topleft psf_pad kh kw psf)"

text \<open>
  \<^verbatim>\<open>
  PSF2 = (PSF**2).sum(-1)
  iPSF = PSF / (PSF2 + noise)[...,np.newaxis]
  \<close>
  A spectrum is an array of (real part, imaginary part) pairs.
\<close>

definition PSF2_of :: "spectrum \<Rightarrow> image" where
  "PSF2_of PSF = map (map (\<lambda>(re, im). re ^ 2 + im ^ 2)) PSF"

definition wiener_denominator :: "spectrum \<Rightarrow> real \<Rightarrow> image" where
  "wiener_denominator PSF noise = map (map (\<lambda>v. v + noise)) (PSF2_of PSF)"

definition wiener_inverse :: "spectrum \<Rightarrow> real \<Rightarrow> spectrum" where
  "wiener_inverse PSF noise =
     map2 (map2 (\<lambda>(re, im) den. (re / den, im / den))) PSF (wiener_denominator PSF noise)"

definition cplx :: "real \<times> real \<Rightarrow> complex" where
  "cplx p = Complex (fst p) (snd p)"

text \<open>
  \<open>np.roll(a, s, axis)\<close>: element \<open>i\<close> of the axis moves to \<open>(i + s) mod n\<close>.
  \<^verbatim>\<open>
  res_bw = np.roll(res_bw, -kh//2, 0)
  res_bw = np.roll(res_bw, -kw//2, 1)
  \<close>
  In Python \<open>-kh//2\<close> is \<open>(-kh)//2\<close> with the quotient rounded down, which is
  \<open>div\<close> on \<open>int\<close>.
\<close>

definition roll1 :: "int \<Rightarrow> 'a list \<Rightarrow> 'a list" where
  "roll1 s xs = (if xs = [] then [] else rotate (nat ((- s) mod int (length xs))) xs)"

definition roll :: "'a list list \<Rightarrow> int \<Rightarrow> nat \<Rightarrow> 'a list list" where
  "roll a s axis = (if axis = 0 then roll1 s a else map (roll1 s) a)"

definition recenter :: "image \<Rightarrow> nat \<Rightarrow> nat \<Rightarrow> image" where
  "recenter res kh kw =
     (let res1 = roll res ((- int kh) div 2) 0
      in roll res1 ((- int kw) div 2) 1)"

subsection \<open>main and update\<close>

text \<open>
  The sliders hold \<open>angle\<close> (0..180), \<open>d\<close> (0..50, used as an array length) and
  \<open>SNR (db)\<close> (0..50); \<open>defocus\<close> is the PSF switch, \<open>roi_bw\<close> the selected rectangle
  and \<open>IMG_BW\<close> the spectrum of the conditioned image.
\<close>

record session =
  angle_pos :: int
  d_pos :: nat
  snr_pos :: int
  defocus :: bool
  roi_bw :: roi
  IMG_BW :: spectrum



text \<open>
  \<open>update\<close> returns the images handed to \<open>cv.imshow\<close>, in order, and the exception
  that ended it, if any.
  \<^verbatim>\<open>
  def update(_):
      ang = np.deg2rad( cv.getTrackbarPos('angle', win) )
      d = cv.getTrackbarPos('d', win)
      noise = 10**(-0.1*cv.getTrackbarPos('SNR (db)', win))
      if defocus:
          psf = defocus_kernel(d)
      else:
          psf = motion_kernel(ang, d)
      cv.imshow('psf', psf)
      psf /= psf.sum()
      psf_pad = np.zeros_like(roi_bw)
      kh, kw = psf.shape
      psf_pad[:kh, :kw] = psf
      PSF = cv.dft(psf_pad, flags=cv.DFT_COMPLEX_OUTPUT, nonzeroRows = kh)
      PSF2 = (PSF**2).sum(-1)
      iPSF = PSF / (PSF2 + noise)[...,np.newaxis]
      RES_BW = cv.mulSpectrums(IMG_BW, iPSF, 0)
      res_bw = cv.idft(RES_BW, flags=cv.DFT_SCALE | cv.DFT_REAL_OUTPUT )
      res_bw = np.roll(res_bw, -kh//2, 0)
      res_bw = np.roll(res_bw, -kw//2, 1)
      cv.imshow(win, res_bw)
  \<close>
\<close>

definition update :: "cv \<Rightarrow> session \<Rightarrow> (string \<times> image) list \<times> error option" where
  "update L s =
     (let ang = deg2rad (real_of_int (angle_pos s));
          d = d_pos s;
          noise = noise_of_snr (snr_pos s)
      in case (if defocus s then Inr (defocus_kernel L d None) else motion_kernel L ang d None) of
           Inl e \<Rightarrow> ([], Some e)
         | Inr psf \<Rightarrow>
             (let shown = [(''psf'', psf)];
                  psf' = normalize_psf psf;
                  (kh, kw) = shape2 psf'
              in case pad_kernel (roi_bw s) psf' of
                   Inl e \<Rightarrow> (shown, Some e)
                 | Inr psf_pad \<Rightarrow>
                     (let PSF = cv_dft L psf_pad kh;
                          iPSF = wiener_inverse PSF noise;
                          RES_BW = cv_mulSpectrums L (IMG_BW s) iPSF;
                          res_bw = cv_idft L RES_BW;
                          res_bw' = recenter res_bw kh kw
                      in (shown @ [(''deconvolution'', res_bw')], None))))"

subsection \<open>A stand-in library for evaluation\<close>

text \<open>
  An instance of \<open>cv\<close> on which the definitions can be run at concrete inputs: the
  blur returns its argument, the warp fills the canvas with zeros and fails on an empty
  source, the circle is a hard-edged disc in half-pixel units, the transform puts each
  sample in the real part. Nothing about OpenCV is derived from it.
\<close>

definition cv_stub :: cv where
  "cv_stub =
     \<lparr>cv_GaussianBlur = (\<lambda>img ks sigma. img),
      cv_warpAffine = (\<lambda>src A dsize.
         if src = [] \<or> hd src = [] then None
         else Some (replicate (snd dsize) (replicate (fst dsize) 0))),
      cv_circle = (\<lambda>kern c r col y x.
         if (2 * int x - fst c) ^ 2 + (2 * int y - snd c) ^ 2 \<le> (int r) ^ 2 then col
         else kern ! y ! x),
      cv_dft = (\<lambda>img n. map (map (\<lambda>v. (v, 0))) img),
      cv_mulSpectrums = (\<lambda>a b.
         map2 (map2 (\<lambda>p q. (fst p * fst q - snd p * snd q, fst p * snd q + snd p * fst q))) a b),
      cv_idft = (\<lambda>sp. map (map fst) sp)\<rparr>"


subsection \<open>The spectral transform\<close>

text \<open>
  Modelled from the spec: the forward transform of section 4.3, which the program obtains
  from \<open>cv.dft\<close> with \<open>DFT_COMPLEX_OUTPUT\<close> and whose code is not part of the
  repository. It is the full-size two-dimensional discrete Fourier transform of a real
  array of \<open>H\<close> rows and \<open>W\<close> columns, of any size: bin \<open>(u, v)\<close> is the sum over
  all pixels \<open>(y, c)\<close> of the sample times \<open>exp (- 2 \<pi> i (u y / H + v c / W))\<close>, stored
  as the pair of its real and imaginary part.
\<close>

definition SpectralTransform_forward :: "image \<Rightarrow> spectrum" where
  "SpectralTransform_forward x =
     (let (H, W) = shape2 x
      in map (\<lambda>u. map (\<lambda>v.
               let S = (\<Sum>y<H. \<Sum>c<W. complex_of_real (x ! y ! c) *
                          cis (- (2 * pi * (real u * real y / real H + real v * real c / real W))))
               in (Re S, Im S))
             [0..<W])
           [0..<H])"

text \<open>
  Modelled from the spec: the inverse transform of section 4.3 (\<open>cv.idft\<close> with
  \<open>DFT_SCALE | DFT_REAL_OUTPUT\<close>, code not part of the repository): the adjoint sum with
  the opposite sign in the exponent, scaled by \<open>1 / (H W)\<close>, of which only the real
  component is kept.
\<close>

definition SpectralTransform_inverse :: "spectrum \<Rightarrow> image" where
  "SpectralTransform_inverse Y =
     (let (H, W) = shape2 Y
      in map (\<lambda>y. map (\<lambda>c.
               Re ((\<Sum>u<H. \<Sum>v<W. cplx (Y ! u ! v) *
                      cis (2 * pi * (real u * real y / real H + real v * real c / real W)))
                   / of_nat (H * W)))
             [0..<W])
           [0..<H])"

section \<open>Properties\<close>

subsection \<open>Shapes and element access\<close>

lemma has_shape_nth: "has_shape h w a \<Longrightarrow> y < h \<Longrightarrow> length (a ! y) = w"
  by (simp add: has_shape_def list_all_length)

lemma has_shape_shape2: "has_shape h w a \<Longrightarrow> 0 < h \<Longrightarrow> shape2 a = (h, w)"
  by (cases a) (auto simp: has_shape_def shape2_def)

lemma has_shape_empty: "has_shape 0 w a \<Longrightarrow> a = []"
  by (simp add: has_shape_def)

lemma has_shapeI:
  "length a = h \<Longrightarrow> (\<And>y. y < h \<Longrightarrow> length (a ! y) = w) \<Longrightarrow> has_shape h w a"
  by (simp add: has_shape_def list_all_length)










subsection \<open>Edge conditioning\<close>









subsection \<open>The Wiener inverse filter\<close>

lemma zip_map_same: "map F (zip xs (map g xs)) = map (\<lambda>x. F (x, g x)) xs"
  by (induction xs) simp_all

lemma zip_map_same2:
  "map (\<lambda>p. map F (zip (fst p) (snd p))) (zip a (map (map g) a)) =
     map (map (\<lambda>x. F (x, g x))) a"
  by (induction a) (simp_all add: zip_map_same)

lemma wiener_denominator_map:
  "wiener_denominator PSF noise = map (map (\<lambda>p. (fst p) ^ 2 + (snd p) ^ 2 + noise)) PSF"
  by (simp add: wiener_denominator_def PSF2_of_def case_prod_unfold comp_def)

lemma wiener_inverse_map:
  "wiener_inverse PSF noise =
     map (map (\<lambda>p. (fst p / ((fst p) ^ 2 + (snd p) ^ 2 + noise),
                     snd p / ((fst p) ^ 2 + (snd p) ^ 2 + noise)))) PSF"
  unfolding wiener_inverse_def wiener_denominator_map
  by (simp add: case_prod_unfold zip_map_same2)

lemma cplx_divide_real:
  "cplx (fst p / r, snd p / r) = cplx p / of_real r"
  by (simp add: cplx_def complex_eq_iff)

lemma cmod_cplx: "(cmod (cplx p)) ^ 2 = (fst p) ^ 2 + (snd p) ^ 2"
  by (simp add: cplx_def cmod_power2)

text \<open>
  Claim C1. Read as complex numbers, every bin of the filter computed by
  \<open>wiener_inverse\<close> is \<open>P / (|P|\<^sup>2 + noise)\<close> for the bin \<open>P\<close> of the PSF
  spectrum, where \<open>|P|\<^sup>2\<close> is the sum of the squares of the real and the imaginary
  part, and the noise level derived from the slider value \<open>v\<close> is
  \<open>10\<close> to the power \<open>- v / 10\<close>.
\<close>

theorem wiener_inverse_formula:
  "map (map cplx) (wiener_inverse PSF noise) =
     map (map (\<lambda>P. cplx P / of_real ((cmod (cplx P)) ^ 2 + noise))) PSF
   \<and> (cmod (cplx (re, im))) ^ 2 = re ^ 2 + im ^ 2
   \<and> noise_of_snr v = 10 powr (- (real_of_int v / 10))"
proof (intro conjI)
  show "map (map cplx) (wiener_inverse PSF noise) =
     map (map (\<lambda>P. cplx P / of_real ((cmod (cplx P)) ^ 2 + noise))) PSF"
    unfolding wiener_inverse_map by (simp add: comp_def cplx_divide_real cmod_cplx)
  show "(cmod (cplx (re, im))) ^ 2 = re ^ 2 + im ^ 2" by (simp add: cmod_cplx)
  show "noise_of_snr v = 10 powr (- (real_of_int v / 10))" by (simp add: noise_of_snr_def)
qed

lemma noise_of_snr_pos: "0 < noise_of_snr v"
  by (simp add: noise_of_snr_def)

lemma wiener_denominator_pos:
  "0 < noise \<Longrightarrow> list_all (list_all (\<lambda>den. 0 < den)) (wiener_denominator PSF noise)"
  unfolding wiener_denominator_map
  by (simp add: list_all_iff add_nonneg_pos)

text \<open>
  Claim C10. For a slider value \<open>v\<close> between 0 and 50 the noise level is strictly
  positive, and so is the denominator \<open>|P|\<^sup>2 + noise\<close> by which
  \<open>wiener_inverse\<close> divides at every bin: no division by zero.
\<close>

theorem wiener_denominator_positive:
  assumes "0 \<le> v" and "v \<le> 50"
  shows "0 < noise_of_snr v \<and>
         list_all (list_all (\<lambda>den. 0 < den)) (wiener_denominator PSF (noise_of_snr v)) \<and>
         wiener_inverse PSF (noise_of_snr v) =
           map2 (map2 (\<lambda>(re, im) den. (re / den, im / den))) PSF
                (wiener_denominator PSF (noise_of_snr v))"
  by (simp add: noise_of_snr_pos wiener_denominator_pos wiener_inverse_def)

text \<open>At 25 dB, with a bin that is exactly zero.\<close>

theorem wiener_denominator_positive_witness:
  "(0::int) \<le> 25 \<and> (25::int) \<le> 50 \<and> 0 < noise_of_snr 25 \<and>
   list_all (list_all (\<lambda>den. 0 < den)) (wiener_denominator [[(0, 0), (1, - 1)]] (noise_of_snr 25))"
proof -
  have a: "(0::int) \<le> 25" and b: "(25::int) \<le> 50" by simp_all
  from wiener_denominator_positive [OF a b, of "[[(0, 0), (1, - 1)]]"] a b show ?thesis
    by simp
qed

subsection \<open>Recentering\<close>

lemma roll1_length: "length (roll1 s xs) = length xs"
  by (simp add: roll1_def)

lemma roll1_nth:
  assumes "i < length xs"
  shows "roll1 s xs ! i = xs ! nat ((int i - s) mod int (length xs))"
proof -
  let ?n = "length xs"
  from assms have ne: "xs \<noteq> []" and n: "0 < int ?n" by auto
  have "(nat ((- s) mod int ?n) + i) mod ?n = nat ((int i - s) mod int ?n)"
  proof -
    have "int ((nat ((- s) mod int ?n) + i) mod ?n) = (((- s) mod int ?n) + int i) mod int ?n"
      using n by (simp add: zmod_int)
    also have "\<dots> = (int i - s) mod int ?n"
      by (simp add: mod_add_right_eq add.commute)
    finally show ?thesis by linarith
  qed
  with assms ne show ?thesis by (simp add: roll1_def nth_rotate)
qed

lemma roll1_set: "set (roll1 s xs) = set xs"
  by (simp add: roll1_def)

lemma recenter_shape: "has_shape H W res \<Longrightarrow> has_shape H W (recenter res kh kw)"
  by (simp add: recenter_def roll_def has_shape_def roll1_length list_all_iff roll1_set)

lemma recenter_nth:
  assumes "has_shape H W res" and "i < H" and "j < W"
  shows "recenter res kh kw ! i ! j =
           res ! nat ((int i - (- int kh) div 2) mod int H)
               ! nat ((int j - (- int kw) div 2) mod int W)"
proof -
  let ?r = "nat ((int i - (- int kh) div 2) mod int H)"
  from assms have H: "length res = H" by (simp add: has_shape_def)
  from assms have r: "?r < H" by (simp add: nat_less_iff)
  have 1: "roll1 ((- int kh) div 2) res ! i = res ! ?r"
    using assms H by (simp add: roll1_nth)
  have 2: "length (res ! ?r) = W" using assms(1) r by (rule has_shape_nth)
  show ?thesis
    using assms H 1 2 by (simp add: recenter_def roll_def roll1_length roll1_nth)
qed

text \<open>
  The shift amounts are \<open>s\<^sub>r = (- kh) div 2\<close> rows and \<open>s\<^sub>c = (- kw) div 2\<close>
  columns, the quotient of \<open>- kh\<close> rounded down as Python's \<open>//\<close> does: the shape is
  kept and the pixel at \<open>(i, j)\<close> of the output is the pixel at
  \<open>((i - s\<^sub>r) mod H, (j - s\<^sub>c) mod W)\<close> of the input.
\<close>

lemma recenter_floor_shift:
  assumes "has_shape H W res" and "i < H" and "j < W"
  shows "has_shape H W (recenter res kh kw) \<and>
         recenter res kh kw ! i ! j =
           res ! nat ((int i - (- int kh) div 2) mod int H)
               ! nat ((int j - (- int kw) div 2) mod int W)"
  using assms by (simp add: recenter_shape recenter_nth)

text \<open>For an odd side the quotient is one below minus half the side.\<close>

lemma neg_floor_div_odd: "odd kh \<Longrightarrow> (- int kh) div 2 = - int (kh div 2) - 1"
  by (elim oddE) simp

text \<open>For the default kernel of side 65 the shift is \<open>-33\<close> in both axes.\<close>

lemma recenter_default_shift:
  assumes "has_shape H W res" and "i < H" and "j < W"
  shows "recenter res 65 65 ! i ! j = res ! ((i + 33) mod H) ! ((j + 33) mod W)"
proof -
  have "nat ((int i - (- int 65) div 2) mod int H) = (i + 33) mod H"
    by (simp add: nat_mod_distrib nat_add_distrib)
  moreover have "nat ((int j - (- int 65) div 2) mod int W) = (j + 33) mod W"
    by (simp add: nat_mod_distrib nat_add_distrib)
  ultimately show ?thesis using recenter_nth [OF assms, of 65 65] by simp
qed



subsection \<open>Kernel normalisation\<close>

lemma sum_list_divide: "sum_list (map (\<lambda>v. v / c) xs) = sum_list xs / (c::real)"
  by (induction xs) (simp_all add: add_divide_distrib)

lemma psf_sum_normalize: "psf_sum (normalize_psf k) = psf_sum k / psf_sum k"
proof -
  have "sum_list (map sum_list (map (map (\<lambda>v. v / c)) k)) = sum_list (map sum_list k) / c" for c
    by (induction k) (simp_all add: sum_list_divide add_divide_distrib)
  then show ?thesis by (simp add: psf_sum_def normalize_psf_def)
qed

text \<open>
  Claim C5. After \<open>psf /= psf.sum()\<close> the elements of the kernel sum to 1, hence to
  1 within \<open>10\<^sup>-\<^sup>6\<close>, for every kernel whose sum is not zero: the step is the same
  for the motion and the defocus kernel. Exact arithmetic; the rounding of float32 is
  not part of the model.
\<close>

theorem normalize_psf_unit_sum:
  assumes "psf_sum k \<noteq> 0"
  shows "psf_sum (normalize_psf k) = 1 \<and> \<bar>psf_sum (normalize_psf k) - 1\<bar> \<le> 1 / 10 ^ 6"
  using assms by (simp add: psf_sum_normalize)

text \<open>A kernel of sum 8.\<close>

theorem normalize_psf_unit_sum_witness:
  "psf_sum [[1, 3], [0, 4]] \<noteq> 0 \<and> psf_sum (normalize_psf [[1, 3], [0, 4]]) = 1"
proof -
  have a: "psf_sum [[1, 3], [0, 4]] \<noteq> 0" by (simp add: psf_sum_def)
  from normalize_psf_unit_sum [OF a] a show ?thesis by simp
qed

subsection \<open>Padding the kernel\<close>

lemma zeros_like_roi: "zeros_like (asarray_roi r) = Arr1 [0, 0, 0, 0]"
  by (cases r) (simp add: zeros_like_def asarray_roi_def)

lemma pad_kernel_raises: "pad_kernel r psf = Inl IndexError"
  by (simp add: pad_kernel_def zeros_like_roi setitem_topleft_def case_prod_unfold)

text \<open>
  Claim C2 says that the kernel is written into the top-left corner of a zero array of
  the image's dimensions. In the program the zero array is \<open>np.zeros_like(roi_bw)\<close>,
  and \<open>roi_bw\<close> is the selected rectangle, not an image: the array has one axis of
  length 4, and the assignment to \<open>psf_pad[:kh, :kw]\<close> raises IndexError for every
  rectangle and every kernel.
\<close>

theorem pad_kernel_index_error:
  "ndarray_shape (zeros_like (asarray_roi r)) = [4] \<and> pad_kernel r psf = Inl IndexError"
  by (simp add: zeros_like_roi ndarray_shape_def pad_kernel_raises)

text \<open>The same at the rectangle covering a 640 by 480 image, with a flat 65 by 65 kernel.\<close>

theorem pad_kernel_fails_at_roi:
  "pad_kernel (0, 0, 640, 480) (replicate 65 (replicate 65 (1 / 4225))) = Inl IndexError"
  by (simp add: pad_kernel_def zeros_like_def asarray_roi_def setitem_topleft_def
      case_prod_unfold)

subsection \<open>Parameter checks in update\<close>

lemma motion_kernel_error: "motion_kernel L ang d szo = Inl e \<Longrightarrow> e = CvError"
  by (auto simp: motion_kernel_def Let_def split: option.splits)

lemma update_error:
  assumes "snd (update L s) = Some e"
  shows "e = CvError \<or> e = IndexError"
  using assms
  by (auto simp: update_def Let_def pad_kernel_raises case_prod_unfold
      dest: motion_kernel_error split: sum.splits if_splits)

lemma update_defocus_shown:
  "fst (update L (s\<lparr>defocus := True\<rparr>)) = [(''psf'', defocus_kernel L (d_pos s) None)]"
  by (simp add: update_def Let_def pad_kernel_raises case_prod_unfold)

lemma update_defocus_error:
  "snd (update L (s\<lparr>defocus := True\<rparr>)) = Some IndexError"
  by (simp add: update_def Let_def pad_kernel_raises case_prod_unfold)

text \<open>
  Claim C3, amended. \<open>update\<close> checks neither the diameter nor the noise level: no
  run of it ends with InvalidParameter; with the disc PSF the kernel is synthesised and
  shown for every diameter, zero included; and the noise level derived from the slider
  is strictly positive for every slider value, so a noise level of zero or less cannot
  be supplied.
\<close>

theorem update_no_parameter_check:
  "snd (update L s) \<noteq> Some InvalidParameter \<and>
   (\<exists>rest. fst (update L (s\<lparr>defocus := True\<rparr>)) =
            (''psf'', defocus_kernel L (d_pos s) None) # rest) \<and>
   0 < noise_of_snr v"
proof (intro conjI)
  show "snd (update L s) \<noteq> Some InvalidParameter"
    using update_error [of L s InvalidParameter] by auto
  show "\<exists>rest. fst (update L (s\<lparr>defocus := True\<rparr>)) =
          (''psf'', defocus_kernel L (d_pos s) None) # rest"
    by (simp add: update_defocus_shown)
  show "0 < noise_of_snr v" by (rule noise_of_snr_pos)
qed

text \<open>
  Claim C3 as stated fails: with diameter 0 and the disc PSF, \<open>update\<close> does not end
  with InvalidParameter, and the kernel has been shown by then.
\<close>

theorem update_zero_diameter_counterexample:
  "snd (update cv_stub \<lparr>angle_pos = 135, d_pos = 0, snr_pos = 25, defocus = True,
                         roi_bw = (0, 0, 640, 480), IMG_BW = []\<rparr>) \<noteq> Some InvalidParameter
   \<and> fst (update cv_stub \<lparr>angle_pos = 135, d_pos = 0, snr_pos = 25, defocus = True,
                         roi_bw = (0, 0, 640, 480), IMG_BW = []\<rparr>) \<noteq> []"
proof -
  let ?s = "\<lparr>angle_pos = 135, d_pos = 0, snr_pos = 25, defocus = True,
             roi_bw = (0, 0, 640, 480), IMG_BW = []\<rparr>"
  have s: "?s = ?s\<lparr>defocus := True\<rparr>" by simp
  have "snd (update cv_stub ?s) = Some IndexError"
    by (subst s) (rule update_defocus_error)
  moreover have "fst (update cv_stub ?s) = [(''psf'', defocus_kernel cv_stub (d_pos ?s) None)]"
    by (subst s) (rule update_defocus_shown)
  ultimately show ?thesis by simp
qed

subsection \<open>The pad width used by main\<close>




subsection \<open>The defocus kernel\<close>

text \<open>
  The disc kernel is square of side \<open>sz\<close> with elements between 0 and 1, whatever
  \<open>cv.circle\<close> draws. The motion kernel is the array returned by \<open>cv.warpAffine\<close>.
\<close>

lemma defocus_kernel_shape:
  "has_shape (case szo of None \<Rightarrow> 65 | Some n \<Rightarrow> n) (case szo of None \<Rightarrow> 65 | Some n \<Rightarrow> n)
     (defocus_kernel L d szo)"
  by (intro has_shapeI) (simp_all add: defocus_kernel_def Let_def)

lemma uint8_range: "0 \<le> real (unat (w :: 8 word)) \<and> real (unat w) \<le> 255"
proof -
  have "unat w < 256" using unsigned_less [of w, where ?'a = nat] by simp
  then have "unat w \<le> 255" by simp
  then have "real (unat w) \<le> real 255" by (simp only: of_nat_le_iff)
  moreover have "0 \<le> real (unat w)" by (rule of_nat_0_le_iff)
  ultimately show ?thesis by simp
qed

lemma defocus_kernel_range:
  "list_all (list_all (\<lambda>v. 0 \<le> v \<and> v \<le> 1)) (defocus_kernel L d szo)"
  using uint8_range by (simp add: defocus_kernel_def Let_def list_all_iff)

subsection \<open>Round trip of the spectral transform\<close>

lemma root_of_unity_sum:
  assumes N: "0 < N" and a: "a < N" and b: "b < N"
  shows "(\<Sum>k<N. cis (2 * pi * (real k * (real a - real b) / real N))) =
           (if a = b then of_nat N else 0)"
proof (cases "a = b")
  case True
  then show ?thesis by simp
next
  case False
  define z where "z = cis (2 * pi * ((real a - real b) / real N))"
  have pow: "cis (2 * pi * (real k * (real a - real b) / real N)) = z ^ k" for k
    by (simp add: z_def DeMoivre algebra_simps)
  have zN: "z ^ N = 1"
  proof -
    have "real N * (2 * pi * ((real a - real b) / real N)) = 2 * pi * of_int (int a - int b)"
      using N by simp
    then have "z ^ N = cis (2 * pi * of_int (int a - int b))"
      by (simp only: z_def DeMoivre)
    also have "\<dots> = 1" by (rule cis_multiple_2pi) simp
    finally show ?thesis .
  qed
  have z1: "z \<noteq> 1"
  proof
    assume "z = 1"
    then have "cos (2 * pi * ((real a - real b) / real N)) = 1"
      by (simp add: z_def complex_eq_iff)
    then obtain n :: int where n: "2 * pi * ((real a - real b) / real N) = of_int n * 2 * pi"
      by (auto simp: cos_one_2pi_int)
    have "2 * pi * ((real a - real b) / real N) = 2 * pi * of_int n"
      using n by (simp only: mult_ac)
    then have "(real a - real b) / real N = of_int n"
      by (simp only: mult_cancel_left) simp
    then have "real a - real b = of_int n * real N" using N by (simp add: field_simps)
    then have "real_of_int (int a - int b) = real_of_int (n * int N)" by simp
    then have eq: "int a - int b = n * int N" by (simp only: of_int_eq_iff)
    have "\<bar>int a - int b\<bar> < int N" using a b by linarith
    with eq have "\<bar>n\<bar> * int N < 1 * int N" by (simp add: abs_mult)
    then have "\<bar>n\<bar> < 1" using N by (simp only: mult_less_cancel_right)
    then have "n = 0" by simp
    with eq False show False by simp
  qed
  have "(\<Sum>k<N. z ^ k) = (z ^ N - 1) / (z - 1)"
    using z1 by (rule geometric_sum)
  with zN have "(\<Sum>k<N. z ^ k) = 0" by simp
  with False show ?thesis by (simp only: pow if_False)
qed

lemma dft_kernel_product:
  "z * cis (- (2 * pi * (real u * real y' / real H + real v * real c' / real W))) *
   cis (2 * pi * (real u * real y / real H + real v * real c / real W)) =
   z * (cis (2 * pi * (real u * (real y - real y') / real H)) *
        cis (2 * pi * (real v * (real c - real c') / real W)))"
proof -
  have "- (2 * pi * (real u * real y' / real H + real v * real c' / real W))
        + 2 * pi * (real u * real y / real H + real v * real c / real W)
        = 2 * pi * (real u * (real y - real y') / real H)
          + 2 * pi * (real v * (real c - real c') / real W)"
    by (simp add: algebra_simps diff_divide_distrib)
  then have "cis (- (2 * pi * (real u * real y' / real H + real v * real c' / real W))) *
      cis (2 * pi * (real u * real y / real H + real v * real c / real W)) =
      cis (2 * pi * (real u * (real y - real y') / real H)) *
      cis (2 * pi * (real v * (real c - real c') / real W))"
    by (simp only: cis_mult)
  then show ?thesis by (simp only: mult.assoc)
qed

lemma sum_delta2:
  fixes H W :: nat
  assumes "y < H" and "c < W"
  shows "(\<Sum>y'<H. \<Sum>c'<W. f y' c' *
            ((if y = y' then (a::complex) else 0) * (if c = c' then b else 0)))
         = f y c * (a * b)"
proof -
  have inner: "(\<Sum>c'<W. f y' c' * ((if y = y' then a else 0) * (if c = c' then b else 0)))
        = (if y = y' then f y' c * (a * b) else 0)" for y'
  proof (cases "y = y'")
    case True
    have "(\<Sum>c'<W. f y' c' * (a * (if c = c' then b else 0)))
          = (\<Sum>c'<W. if c = c' then f y' c' * (a * b) else 0)"
      by (rule sum.cong) simp_all
    also have "\<dots> = f y' c * (a * b)" using assms by (simp add: sum.delta')
    finally show ?thesis using True by simp
  next
    case False
    then show ?thesis by simp
  qed
  show ?thesis using assms by (simp only: inner) (simp add: sum.delta')
qed

lemma sum4_swap:
  "(\<Sum>u\<in>A. \<Sum>v\<in>B. \<Sum>y\<in>C. \<Sum>c\<in>D. f u v y c) =
   (\<Sum>y\<in>C. \<Sum>c\<in>D. \<Sum>u\<in>A. \<Sum>v\<in>B. (f u v y c :: complex))"
proof -
  have "(\<Sum>u\<in>A. \<Sum>v\<in>B. \<Sum>y\<in>C. \<Sum>c\<in>D. f u v y c) =
        (\<Sum>u\<in>A. \<Sum>y\<in>C. \<Sum>v\<in>B. \<Sum>c\<in>D. f u v y c)"
    by (rule sum.cong [OF refl]) (rule sum.swap)
  also have "\<dots> = (\<Sum>y\<in>C. \<Sum>u\<in>A. \<Sum>v\<in>B. \<Sum>c\<in>D. f u v y c)"
    by (rule sum.swap)
  also have "\<dots> = (\<Sum>y\<in>C. \<Sum>u\<in>A. \<Sum>c\<in>D. \<Sum>v\<in>B. f u v y c)"
    by (rule sum.cong [OF refl], rule sum.cong [OF refl]) (rule sum.swap)
  also have "\<dots> = (\<Sum>y\<in>C. \<Sum>c\<in>D. \<Sum>u\<in>A. \<Sum>v\<in>B. f u v y c)"
    by (rule sum.cong [OF refl]) (rule sum.swap)
  finally show ?thesis .
qed

lemma sum2_factor:
  "(\<Sum>u\<in>A. \<Sum>v\<in>B. x * (f u * g v)) = x * ((\<Sum>u\<in>A. f u) * (\<Sum>v\<in>B. (g v :: complex)))"
  by (subst sum_product) (simp only: sum_distrib_left)

lemma dft_inversion:
  fixes X :: "nat \<Rightarrow> nat \<Rightarrow> real"
  assumes y: "y < H" and c: "c < W"
  shows "(\<Sum>u<H. \<Sum>v<W.
            (\<Sum>y'<H. \<Sum>c'<W. complex_of_real (X y' c') *
               cis (- (2 * pi * (real u * real y' / real H + real v * real c' / real W)))) *
            cis (2 * pi * (real u * real y / real H + real v * real c / real W)))
         = complex_of_real (X y c) * (of_nat H * of_nat W)"
proof -
  let ?A = "\<lambda>u y'. cis (2 * pi * (real u * (real y - real y') / real H))"
  let ?B = "\<lambda>v c'. cis (2 * pi * (real v * (real c - real c') / real W))"
  have H: "0 < H" and W: "0 < W" using y c by auto
  have tm: "(\<Sum>y'<H. \<Sum>c'<W. complex_of_real (X y' c') *
               cis (- (2 * pi * (real u * real y' / real H + real v * real c' / real W)))) *
            cis (2 * pi * (real u * real y / real H + real v * real c / real W))
        = (\<Sum>y'<H. \<Sum>c'<W. complex_of_real (X y' c') * (?A u y' * ?B v c'))" for u v
    by (simp only: sum_distrib_right dft_kernel_product)
  have "(\<Sum>u<H. \<Sum>v<W. \<Sum>y'<H. \<Sum>c'<W. complex_of_real (X y' c') * (?A u y' * ?B v c'))
        = (\<Sum>y'<H. \<Sum>c'<W. \<Sum>u<H. \<Sum>v<W. complex_of_real (X y' c') * (?A u y' * ?B v c'))"
    by (rule sum4_swap)
  also have "\<dots> = (\<Sum>y'<H. \<Sum>c'<W. complex_of_real (X y' c') *
               ((\<Sum>u<H. ?A u y') * (\<Sum>v<W. ?B v c')))"
    by (simp only: sum2_factor)
  also have "\<dots> = (\<Sum>y'<H. \<Sum>c'<W. complex_of_real (X y' c') *
               ((if y = y' then of_nat H else 0) * (if c = c' then of_nat W else 0)))"
  proof (rule sum.cong [OF refl], rule sum.cong [OF refl])
    fix y' c' assume "y' \<in> {..<H}" "c' \<in> {..<W}"
    then have q: "y' < H" "c' < W" by auto
    show "complex_of_real (X y' c') * ((\<Sum>u<H. ?A u y') * (\<Sum>v<W. ?B v c'))
        = complex_of_real (X y' c') *
               ((if y = y' then of_nat H else 0) * (if c = c' then of_nat W else 0))"
      by (simp only: root_of_unity_sum [OF H y q(1)] root_of_unity_sum [OF W c q(2)])
  qed
  also have "\<dots> = complex_of_real (X y c) * (of_nat H * of_nat W)"
    using y c by (rule sum_delta2)
  finally show ?thesis by (simp only: tm)
qed

lemma forward_shape2:
  assumes "has_shape H W x" and "0 < H"
  shows "length (SpectralTransform_forward x) = H"
    and "shape2 (SpectralTransform_forward x) = (H, W)"
    and "\<And>u v. u < H \<Longrightarrow> v < W \<Longrightarrow>
           cplx (SpectralTransform_forward x ! u ! v) =
             (\<Sum>y<H. \<Sum>c<W. complex_of_real (x ! y ! c) *
                cis (- (2 * pi * (real u * real y / real H + real v * real c / real W))))"
proof -
  from assms have sh: "shape2 x = (H, W)" by (rule has_shape_shape2)
  then show "length (SpectralTransform_forward x) = H"
    by (simp add: SpectralTransform_forward_def)
  from sh assms(2) show "shape2 (SpectralTransform_forward x) = (H, W)"
    by (simp add: SpectralTransform_forward_def shape2_def hd_map upt_conv_Cons)
  fix u v assume "u < H" and "v < W"
  let ?S = "\<Sum>y<H. \<Sum>c<W. complex_of_real (x ! y ! c) *
                cis (- (2 * pi * (real u * real y / real H + real v * real c / real W)))"
  from sh \<open>u < H\<close> \<open>v < W\<close> have "SpectralTransform_forward x ! u ! v = (Re ?S, Im ?S)"
    by (simp add: SpectralTransform_forward_def Let_def)
  then show "cplx (SpectralTransform_forward x ! u ! v) = ?S"
    by (simp only: cplx_def fst_conv snd_conv complex_surj)
qed

lemma round_trip_nth:
  assumes sh: "has_shape H W x" and y: "y < H" and c: "c < W"
  shows "SpectralTransform_inverse (SpectralTransform_forward x) ! y ! c = x ! y ! c"
proof -
  have H: "0 < H" using y by simp
  note f = forward_shape2 [OF sh H]
  have "SpectralTransform_inverse (SpectralTransform_forward x) ! y ! c =
        Re ((\<Sum>u<H. \<Sum>v<W. cplx (SpectralTransform_forward x ! u ! v) *
               cis (2 * pi * (real u * real y / real H + real v * real c / real W)))
            / of_nat (H * W))"
    using y c by (simp add: SpectralTransform_inverse_def f(2))
  also have "(\<Sum>u<H. \<Sum>v<W. cplx (SpectralTransform_forward x ! u ! v) *
               cis (2 * pi * (real u * real y / real H + real v * real c / real W)))
        = (\<Sum>u<H. \<Sum>v<W.
            (\<Sum>y'<H. \<Sum>c'<W. complex_of_real (x ! y' ! c') *
               cis (- (2 * pi * (real u * real y' / real H + real v * real c' / real W)))) *
            cis (2 * pi * (real u * real y / real H + real v * real c / real W)))"
    by (intro sum.cong refl) (simp add: f(3))
  also have "\<dots> = complex_of_real (x ! y ! c) * (of_nat H * of_nat W)"
    using y c by (rule dft_inversion)
  also have "Re (complex_of_real (x ! y ! c) * (of_nat H * of_nat W) / of_nat (H * W))
        = x ! y ! c"
    using y c by simp
  finally show ?thesis .
qed

lemma round_trip_shape:
  assumes sh: "has_shape H W x"
  shows "has_shape H W (SpectralTransform_inverse (SpectralTransform_forward x))"
proof (cases "H = 0")
  case True
  with sh have "x = []" by (simp add: has_shape_def)
  then show ?thesis using True
    by (simp add: SpectralTransform_inverse_def SpectralTransform_forward_def shape2_def
        has_shape_def)
next
  case False
  then have H: "0 < H" by simp
  note f = forward_shape2 [OF sh H]
  show ?thesis
    by (rule has_shapeI) (simp_all add: SpectralTransform_inverse_def f(2))
qed

text \<open>
  Claim C9. For every real image of \<open>H\<close> rows and \<open>W\<close> columns, whatever \<open>H\<close> and
  \<open>W\<close> are (powers of two or not), the inverse transform of the forward transform is
  the image itself, the output being the real component; in particular each sample is
  within the relative tolerance \<open>10\<^sup>-\<^sup>5\<close>. Exact arithmetic, on the transforms as
  the spec describes them.
\<close>

theorem spectral_round_trip:
  assumes "has_shape H W x"
  shows "SpectralTransform_inverse (SpectralTransform_forward x) = x \<and>
         list_all2 (list_all2 (\<lambda>a b. \<bar>a - b\<bar> \<le> \<bar>b\<bar> / 10 ^ 5))
           (SpectralTransform_inverse (SpectralTransform_forward x)) x"
proof -
  let ?r = "SpectralTransform_inverse (SpectralTransform_forward x)"
  have rs: "has_shape H W ?r" using assms by (rule round_trip_shape)
  have eq: "?r = x"
  proof (rule nth_equalityI)
    show "length ?r = length x" using rs assms by (simp add: has_shape_def)
    fix y assume "y < length ?r"
    with rs have y: "y < H" by (simp add: has_shape_def)
    show "?r ! y = x ! y"
    proof (rule nth_equalityI)
      show "length (?r ! y) = length (x ! y)"
        using has_shape_nth [OF rs y] has_shape_nth [OF assms y] by simp
      fix c assume "c < length (?r ! y)"
      with has_shape_nth [OF rs y] have c: "c < W" by simp
      show "?r ! y ! c = x ! y ! c" using assms y c by (rule round_trip_nth)
    qed
  qed
  have "list_all2 (list_all2 (\<lambda>a b. \<bar>a - b\<bar> \<le> \<bar>b\<bar> / 10 ^ 5)) x x"
    by (simp add: list_all2_same)
  with eq show ?thesis by simp
qed

text \<open>An image of 2 rows and 3 columns.\<close>

theorem spectral_round_trip_witness:
  "has_shape 2 3 [[1, 2, 3], [4, 5, 6::real]] \<and>
   SpectralTransform_inverse (SpectralTransform_forward [[1, 2, 3], [4, 5, 6]])
     = [[1, 2, 3], [4, 5, 6]]"
proof -
  have a: "has_shape 2 3 [[1, 2, 3], [4, 5, 6::real]]" by (simp add: has_shape_def)
  from spectral_round_trip [OF a] a show ?thesis by simp
qed

end
